theory Spec2Isabelle
  imports Complex_Main "HOL-Library.Monad_Syntax"
begin

section \<open>The driver: \<open>main\<close> of \<open>src/main.cc\<close>\<close>

text \<open>
  The model starts where \<open>main\<close> has read the JSON document (line 132): the input is the
  parsed configuration. Command-line handling and the opening of the file (lines 31 to
  130) belong to external helpers and are not modelled; the values they only pass on to
  \<open>AstraSim::Sys\<close> (number of passes, scales, paths) are left out of the records.

  The input is a document that has all eleven fields with values of the right types;
  on any other document the JSON library throws before line 180.

  C++ \<open>int\<close> values are HOL integers, and every product the program forms is checked
  against the range of a 32-bit \<open>int\<close>. Latencies and bandwidths are C++ \<open>double\<close>s that
  \<open>main\<close> only copies; they are rationals here.
\<close>

record config =
  topology_name :: string
  use_fast_version :: bool
  dimensions_count :: int
  units_counts :: "int list"
  link_latencies :: "rat list"
  link_bandwidths :: "rat list"
  nic_latencies :: "rat list"
  router_latencies :: "rat list"
  hbm_latencies :: "rat list"
  hbm_bandwidths :: "rat list"
  hbm_scales :: "rat list"

text \<open>One \<open>TopologyConfig\<close> per dimension, in the order of the constructor call (lines 211 to 220).\<close>

record TopologyConfig =
  npus_count :: int
  link_latency :: rat
  link_bandwidth :: rat
  nic_latency :: rat
  router_latency :: rat
  hbm_latency :: rat
  hbm_bandwidth :: rat
  hbm_scale :: rat

text \<open>The three topology classes \<open>main\<close> can construct. A null \<open>shared_ptr\<close> is \<open>None\<close>.\<close>

datatype Topology =
  FastSwitch "TopologyConfig list"
| FastTorus2D "TopologyConfig list"
| FastRing "TopologyConfig list"

text \<open>
  Steps of \<open>main\<close> on which the C++ standard puts no requirement: a signed product that
  leaves the range of \<open>int\<close>, a variable-length array whose bound is not positive, a
  \<open>std::vector\<close> read past its end, and the read of an indeterminate value.
\<close>

datatype fault = SignedOverflow | ArrayBound | OutOfRange | IndeterminateRead

text \<open>The arguments of one \<open>AstraSim::Sys\<close> constructor call that depend on the configuration.\<close>

record Sys =
  sys_id :: nat
  sys_dimensions :: "int list"

text \<open>
  What exists when the loop of lines 288 to 324 has run and the topology has been handed to
  the adapters (line 328): the adapters by device id, the memories by the adapter they
  are bound to, the systems, and the shared topology pointer.
\<close>

record simulation =
  analytical_networks :: "nat list"
  memories :: "nat list"
  systems :: "Sys list"
  topology :: "Topology option"

datatype outcome =
  Exit string int
| AssertionFailed string
| Undefined fault
| Constructed simulation

definition INT_MIN :: int where
  "INT_MIN = - (2 ^ 31)"

definition INT_MAX :: int where
  "INT_MAX = 2 ^ 31 - 1"

text \<open>Lines 187 to 190: \<open>npus_count *= units_count\<close> over the whole \<open>units_counts\<close> vector.\<close>

fun multiply_counts :: "int \<Rightarrow> int list \<Rightarrow> int option" where
  "multiply_counts acc [] = Some acc"
| "multiply_counts acc (u # us) =
     (if INT_MIN \<le> acc * u \<and> acc * u \<le> INT_MAX then multiply_counts (acc * u) us else None)"

definition compute_npus_count :: "int list \<Rightarrow> int option" where
  "compute_npus_count us = multiply_counts 1 us"

text \<open>
  Lines 193 to 196. \<open>std::array<int, 5>()\<close> is a value-initialisation, which sets every
  element to zero; the loop then stores 1 into the elements 0 to 3. A cell holds
  \<open>Some v\<close> once it has a value and \<open>None\<close> while it is indeterminate.
\<close>

definition value_initialized_array :: "nat \<Rightarrow> int option list" where
  "value_initialized_array n = replicate n (Some 0)"

fun store_ones :: "nat list \<Rightarrow> int option list \<Rightarrow> int option list" where
  "store_ones [] a = a"
| "store_ones (i # is) a = store_ones is (a[i := Some 1])"

definition nodes_count_for_system_init :: "int option list" where
  "nodes_count_for_system_init = store_ones [0..<4] (value_initialized_array 5)"

text \<open>\<open>v[i]\<close> on a \<open>std::vector\<close>: no bounds check, so past the end there is no result.\<close>

definition vector_at :: "'a list \<Rightarrow> nat \<Rightarrow> 'a option" where
  "vector_at v i = (if i < length v then Some (v ! i) else None)"

text \<open>Lines 211 to 220: the eight reads at index \<open>i\<close> and the constructor call.\<close>

definition make_topology_config :: "config \<Rightarrow> nat \<Rightarrow> TopologyConfig option" where
  "make_topology_config cfg i =
     do {
       n \<leftarrow> vector_at (units_counts cfg) i;
       ll \<leftarrow> vector_at (link_latencies cfg) i;
       lb \<leftarrow> vector_at (link_bandwidths cfg) i;
       nl \<leftarrow> vector_at (nic_latencies cfg) i;
       rl \<leftarrow> vector_at (router_latencies cfg) i;
       hl \<leftarrow> vector_at (hbm_latencies cfg) i;
       hb \<leftarrow> vector_at (hbm_bandwidths cfg) i;
       hs \<leftarrow> vector_at (hbm_scales cfg) i;
       Some \<lparr> npus_count = n, link_latency = ll, link_bandwidth = lb, nic_latency = nl,
              router_latency = rl, hbm_latency = hl, hbm_bandwidth = hb, hbm_scale = hs \<rparr>
     }"

text \<open>Lines 210 to 221: \<open>for (int i = 0; i < dimensions_count; i++) emplace_back(...)\<close>.\<close>

fun emplace_configs :: "config \<Rightarrow> nat list \<Rightarrow> TopologyConfig list \<Rightarrow> TopologyConfig list option" where
  "emplace_configs cfg [] acc = Some acc"
| "emplace_configs cfg (i # is) acc =
     (case make_topology_config cfg i of
        None \<Rightarrow> None
      | Some tc \<Rightarrow> emplace_configs cfg is (acc @ [tc]))"

definition build_topology_configs :: "config \<Rightarrow> TopologyConfig list option" where
  "build_topology_configs cfg = emplace_configs cfg [0..<nat (dimensions_count cfg)] []"

text \<open>
  Lines 224 to 285. \<open>assert\<close> is taken as compiled in (no \<open>NDEBUG\<close>): a failed assertion
  prints its text and aborts. The result is either the way the program stops, or the
  topology pointer with the updated \<open>nodes_count_for_system\<close>.
\<close>

definition instantiate_topology ::
  "config \<Rightarrow> int \<Rightarrow> TopologyConfig list \<Rightarrow> int option list
     \<Rightarrow> outcome + (Topology option \<times> int option list)" where
  "instantiate_topology cfg npus topology_configs nodes =
     (if topology_name cfg = ''Switch'' then
        (if dimensions_count cfg \<noteq> 1 then
           Inl (AssertionFailed ''[main] Switch is the given topology but dimension != 1'')
         else if use_fast_version cfg then
           Inr (Some (FastSwitch topology_configs), nodes[2 := Some npus])
         else Inl (Exit ''Detailed version not implemented yet'' (- 1)))
      else if topology_name cfg = ''AllToAll'' then
        (if dimensions_count cfg \<noteq> 1 then
           Inl (AssertionFailed ''[main] AllToAll is the given topology but dimension != 1'')
         else Inr (None, nodes))
      else if topology_name cfg = ''Torus2D'' then
        (if dimensions_count cfg \<noteq> 2 then
           Inl (AssertionFailed ''[main] Torus2D is the given topology but dimension != 2'')
         else if use_fast_version cfg then
           (case (vector_at (units_counts cfg) 1, vector_at (units_counts cfg) 0) of
              (Some u1, Some u0) \<Rightarrow>
                Inr (Some (FastTorus2D topology_configs), nodes[1 := Some u1, 2 := Some u0])
            | _ \<Rightarrow> Inl (Undefined OutOfRange))
         else Inl (Exit ''Detailed version not implemented yet'' (- 1)))
      else if topology_name cfg = ''Ring'' then
        (if dimensions_count cfg \<noteq> 1 then
           Inl (AssertionFailed ''[main] Ring is the given topology but dimension != 1'')
         else if use_fast_version cfg then
           Inr (Some (FastRing topology_configs), nodes[2 := Some npus])
         else Inl (Exit ''Detailed version not implemented yet'' (- 1)))
      else Inl (Exit (''[Main] Topology not defined: '' @ topology_name cfg) (- 1)))"

text \<open>
  Lines 288 to 324: one adapter, one memory and one \<open>Sys\<close> per \<open>i < npus_count\<close>; each
  \<open>Sys\<close> is given the five elements of \<open>nodes_count_for_system\<close>.
\<close>

fun read_cells :: "int option list \<Rightarrow> int list option" where
  "read_cells [] = Some []"
| "read_cells (c # cs) =
     (case c of
        None \<Rightarrow> None
      | Some v \<Rightarrow> (case read_cells cs of None \<Rightarrow> None | Some vs \<Rightarrow> Some (v # vs)))"

definition instantiate_layers :: "int \<Rightarrow> int list \<Rightarrow> Topology option \<Rightarrow> simulation" where
  "instantiate_layers npus dims topo =
     \<lparr> analytical_networks = [0..<nat npus],
       memories = [0..<nat npus],
       systems = map (\<lambda>i. \<lparr> sys_id = i, sys_dimensions = dims \<rparr>) [0..<nat npus],
       topology = topo \<rparr>"

text \<open>
  How \<open>main\<close> goes on from the result of the topology branch: it stops as the branch
  says, or it reads \<open>nodes_count_for_system\<close> and builds the layers.
\<close>

definition after_topology :: "int \<Rightarrow> outcome + (Topology option \<times> int option list) \<Rightarrow> outcome" where
  "after_topology npus r =
     (case r of
        Inl stop \<Rightarrow> stop
      | Inr (topo, nodes) \<Rightarrow>
          (case read_cells nodes of
             None \<Rightarrow> Undefined IndeterminateRead
           | Some dims \<Rightarrow> Constructed (instantiate_layers npus dims topo)))"

text \<open>
  \<open>main\<close> from line 132 to line 328, in the order of the source: the device count, the
  arrays sized by it, the dimension list, the topology branch, the layers.
\<close>

definition main :: "config \<Rightarrow> outcome" where
  "main cfg =
     (case compute_npus_count (units_counts cfg) of
        None \<Rightarrow> Undefined SignedOverflow
      | Some npus \<Rightarrow>
          if npus \<le> 0 then Undefined ArrayBound
          else
            (case build_topology_configs cfg of
               None \<Rightarrow> Undefined OutOfRange
             | Some topology_configs \<Rightarrow>
                 after_topology npus
                   (instantiate_topology cfg npus topology_configs nodes_count_for_system_init)))"

text \<open>
  The statements before the topology is chosen are defined: the running product of
  \<open>units_counts\<close> stays an \<open>int\<close> and ends positive, and each of the eight vectors has an
  element for every \<open>i < dimensions_count\<close>.
\<close>

definition covers :: "'a list \<Rightarrow> int \<Rightarrow> bool" where
  "covers v d = (nat d \<le> length v)"

definition arrays_cover_dimensions :: "config \<Rightarrow> bool" where
  "arrays_cover_dimensions cfg =
     (covers (units_counts cfg) (dimensions_count cfg) \<and>
      covers (link_latencies cfg) (dimensions_count cfg) \<and>
      covers (link_bandwidths cfg) (dimensions_count cfg) \<and>
      covers (nic_latencies cfg) (dimensions_count cfg) \<and>
      covers (router_latencies cfg) (dimensions_count cfg) \<and>
      covers (hbm_latencies cfg) (dimensions_count cfg) \<and>
      covers (hbm_bandwidths cfg) (dimensions_count cfg) \<and>
      covers (hbm_scales cfg) (dimensions_count cfg))"

definition device_count_defined :: "config \<Rightarrow> bool" where
  "device_count_defined cfg =
     (case compute_npus_count (units_counts cfg) of None \<Rightarrow> False | Some n \<Rightarrow> 0 < n)"

definition defined_before_topology :: "config \<Rightarrow> bool" where
  "defined_before_topology cfg = (device_count_defined cfg \<and> arrays_cover_dimensions cfg)"

text \<open>
  What the loop of lines 210 to 221 stores for dimension \<open>i\<close> when every vector has an
  element there.
\<close>

definition dimension_entry :: "config \<Rightarrow> nat \<Rightarrow> TopologyConfig" where
  "dimension_entry cfg i =
     \<lparr> npus_count = units_counts cfg ! i, link_latency = link_latencies cfg ! i,
       link_bandwidth = link_bandwidths cfg ! i, nic_latency = nic_latencies cfg ! i,
       router_latency = router_latencies cfg ! i, hbm_latency = hbm_latencies cfg ! i,
       hbm_bandwidth = hbm_bandwidths cfg ! i, hbm_scale = hbm_scales cfg ! i \<rparr>"

text \<open>Readers of an outcome: the simulation it built, if any, and whether it built one.\<close>

definition simulation_of :: "outcome \<Rightarrow> simulation option" where
  "simulation_of r = (case r of Constructed sim \<Rightarrow> Some sim | _ \<Rightarrow> None)"

definition reaches_construction :: "outcome \<Rightarrow> bool" where
  "reaches_construction r = (case r of Constructed sim \<Rightarrow> True | _ \<Rightarrow> False)"

definition device_count :: "outcome \<Rightarrow> nat option" where
  "device_count r = map_option (\<lambda>sim. length (systems sim)) (simulation_of r)"

definition handed_dimensions :: "outcome \<Rightarrow> int list list" where
  "handed_dimensions r =
     (case simulation_of r of None \<Rightarrow> [] | Some sim \<Rightarrow> map sys_dimensions (systems sim))"

text \<open>
  The dimension count each \<open>assert\<close> of lines 225, 239, 253 and 269 demands for its
  topology name, and the text of that assertion.
\<close>

definition expected_dimensions :: "string \<Rightarrow> int" where
  "expected_dimensions name = (if name = ''Torus2D'' then 2 else 1)"

definition dimension_assertion :: "string \<Rightarrow> string" where
  "dimension_assertion name =
     ''[main] '' @ name @ '' is the given topology but dimension != '' @
       (if name = ''Torus2D'' then ''2'' else ''1'')"

section \<open>The event queue\<close>

text \<open>
  Modelled from the spec: \<open>event-queue/EventQueue.hh\<close> and \<open>EventQueueEntry.hh\<close> are
  included by \<open>main.cc\<close> but are not among the sources. An entry is
  \<open>{time, sequence_number, callback}\<close>; the queue holds the clock, the counter that numbers
  insertions, and the pending entries. A callback is an opaque value of type \<open>'cb\<close>.
  Times are exact rationals.
\<close>

record 'cb EventQueueEntry =
  time :: rat
  sequence_number :: nat
  callback :: 'cb

record 'cb EventQueue =
  clock :: rat
  next_sequence_number :: nat
  entries :: "'cb EventQueueEntry list"

text \<open>
  Modelled from the spec: the two ways the absent core fails fast (section 7), a rejected
  \<open>schedule\<close> and a violated invariant such as a device id out of range.
\<close>

datatype core_error = LogicError | InvariantViolation

text \<open>
  Modelled from the spec: the queue of a fresh simulation, whose clock is
  "initialized to zero at simulation start" (the constructor of the absent \<open>EventQueue\<close>).
\<close>

definition EventQueue_new :: "'cb EventQueue" where
  "EventQueue_new = \<lparr> clock = 0, next_sequence_number = 0, entries = [] \<rparr>"

text \<open>
  Modelled from the spec: \<open>EventQueue::schedule\<close> (absent). It "computes
  \<open>absolute_time = clock + delay\<close>, inserts a new entry with a fresh increasing sequence
  number"; a delay that gives a time below the clock "is rejected as a logic error".
\<close>

definition schedule :: "rat \<Rightarrow> 'cb \<Rightarrow> 'cb EventQueue \<Rightarrow> core_error + 'cb EventQueue" where
  "schedule delay cb q =
     (if clock q + delay < clock q then Inl LogicError
      else Inr (q\<lparr> next_sequence_number := Suc (next_sequence_number q),
                   entries := entries q @
                     [\<lparr> time = clock q + delay, sequence_number = next_sequence_number q,
                        callback = cb \<rparr>] \<rparr>))"

text \<open>
  Modelled from the spec: the order in which the absent \<open>EventQueue::proceed\<close> picks,
  "smallest \<open>(time, sequence_number)\<close>", as a strict comparison of two entries.
\<close>

definition precedes :: "'cb EventQueueEntry \<Rightarrow> 'cb EventQueueEntry \<Rightarrow> bool" where
  "precedes a b =
     (time a < time b \<or> (time a = time b \<and> sequence_number a < sequence_number b))"

text \<open>
  Modelled from the spec: the search of the absent \<open>EventQueue::proceed\<close> for the entry
  to dispatch, a scan that keeps the entry preceding all those seen so far.
\<close>

fun earliest :: "'cb EventQueueEntry \<Rightarrow> 'cb EventQueueEntry list \<Rightarrow> 'cb EventQueueEntry" where
  "earliest m [] = m"
| "earliest m (e # es) = earliest (if precedes e m then e else m) es"

text \<open>
  Modelled from the spec: \<open>EventQueue::empty\<close> (absent), "true iff no entries remain".
\<close>

definition empty_queue :: "'cb EventQueue \<Rightarrow> bool" where
  "empty_queue q = (entries q = [])"

text \<open>
  Modelled from the spec: \<open>EventQueue::proceed\<close> (absent). On a non-empty queue it
  "removes the entry with smallest \<open>(time, sequence_number)\<close> [...], advances \<open>clock\<close> to
  that entry's \<open>time\<close>, then invokes its callback exactly once"; on an empty queue "it is
  a no-op". The result names the dispatched entry, whose callback the caller runs.
\<close>

definition proceed :: "'cb EventQueue \<Rightarrow> 'cb EventQueueEntry option \<times> 'cb EventQueue" where
  "proceed q =
     (case entries q of
        [] \<Rightarrow> (None, q)
      | e # es \<Rightarrow>
          (let m = earliest e es
           in (Some m, q\<lparr> clock := time m, entries := remove1 m (entries q) \<rparr>)))"

text \<open>
  A sequence of calls on one queue, and the record of what was dispatched: for each
  \<open>proceed\<close> that dispatched, the callback and the clock right after the call. A callback
  that schedules further events appears as the \<open>Schedule\<close> calls that follow its
  \<open>Proceed\<close>.
\<close>

datatype 'cb call = Schedule rat 'cb | Proceed

type_synonym 'cb dispatch_log = "('cb \<times> rat) list"

fun run :: "'cb call list \<Rightarrow> 'cb EventQueue \<times> 'cb dispatch_log
    \<Rightarrow> core_error + ('cb EventQueue \<times> 'cb dispatch_log)" where
  "run [] st = Inr st"
| "run (Schedule delay cb # cs) (q, trail) =
     (case schedule delay cb q of
        Inl err \<Rightarrow> Inl err
      | Inr q' \<Rightarrow> run cs (q', trail))"
| "run (Proceed # cs) (q, trail) =
     (case proceed q of
        (None, q') \<Rightarrow> run cs (q', trail)
      | (Some m, q') \<Rightarrow> run cs (q', trail @ [(callback m, clock q')]))"

text \<open>
  Lines 339 to 341 of \<open>main.cc\<close>: \<open>while (!event_queue->empty()) event_queue->proceed();\<close>
  for callbacks that schedule nothing further. Each round removes one entry, so the loop
  runs once per pending entry.
\<close>

fun proceed_rounds :: "nat \<Rightarrow> 'cb EventQueue \<times> 'cb dispatch_log \<Rightarrow> 'cb EventQueue \<times> 'cb dispatch_log" where
  "proceed_rounds 0 st = st"
| "proceed_rounds (Suc n) (q, trail) =
     (if empty_queue q then (q, trail)
      else
        (case proceed q of
           (None, q') \<Rightarrow> proceed_rounds n (q', trail)
         | (Some m, q') \<Rightarrow> proceed_rounds n (q', trail @ [(callback m, clock q')])))"

definition run_events :: "'cb EventQueue \<Rightarrow> 'cb EventQueue \<times> 'cb dispatch_log" where
  "run_events q = proceed_rounds (length (entries q)) (q, [])"

text \<open>
  What holds of every queue reached from a fresh one: no pending entry lies before the
  clock, and the sequence numbers of the pending entries are distinct and below the
  counter.
\<close>

definition queue_inv :: "'cb EventQueue \<Rightarrow> bool" where
  "queue_inv q =
     ((\<forall>e \<in> set (entries q). clock q \<le> time e \<and> sequence_number e < next_sequence_number q) \<and>
      distinct (map sequence_number (entries q)))"

section \<open>Topologies and the delay of a send\<close>

text \<open>
  Modelled from the spec: the variants of the absent \<open>BasicTopology\<close> class
  (\<open>BasicTopology.hh\<close> is included by \<open>FullyConnected.hh\<close> but is not among the sources).
\<close>

datatype BasicTopology = FullyConnected | Ring | Switch | Torus2D

text \<open>
  Modelled from the spec: the valid domain of the device indices of one dimension,
  \<open>0 \<le> src, dst < npus_count\<close>.
\<close>

definition valid_device :: "int \<Rightarrow> int \<Rightarrow> bool" where
  "valid_device n i = (0 \<le> i \<and> i < n)"

text \<open>
  Modelled from the spec: the body of \<open>FullyConnected::compute_hops_count\<close>, which
  \<open>FullyConnected.hh\<close> declares (lines 20 and 21) and no source file defines:
  "\<open>hop_count = 0\<close> if \<open>src == dst\<close>, else \<open>1\<close>". An index outside the dimension is a
  programming error and has no result.
\<close>

definition FullyConnected_compute_hops_count :: "int \<Rightarrow> int \<Rightarrow> int \<Rightarrow> int option" where
  "FullyConnected_compute_hops_count n src dest =
     (if valid_device n src \<and> valid_device n dest
      then Some (if src = dest then 0 else 1)
      else None)"

text \<open>
  Modelled from the spec: the hop count of the absent \<open>Ring\<close> class,
  \<open>min(|src-dst|, n - |src-dst|)\<close>.
\<close>

definition Ring_compute_hops_count :: "int \<Rightarrow> int \<Rightarrow> int \<Rightarrow> int option" where
  "Ring_compute_hops_count n src dest =
     (if valid_device n src \<and> valid_device n dest
      then Some (min \<bar>src - dest\<bar> (n - \<bar>src - dest\<bar>))
      else None)"

text \<open>
  Modelled from the spec: the hop count of the absent \<open>Switch\<close> class, "\<open>0\<close> if
  \<open>src == dst\<close>, else \<open>1\<close>".
\<close>

definition Switch_compute_hops_count :: "int \<Rightarrow> int \<Rightarrow> int \<Rightarrow> int option" where
  "Switch_compute_hops_count n src dest =
     (if valid_device n src \<and> valid_device n dest
      then Some (if src = dest then 0 else 1)
      else None)"

text \<open>
  Modelled from the spec: the dispatch of \<open>hop_count\<close> over the variants. A \<open>Torus2D\<close>
  dimension is one of "two stacked Ring dimensions", so it counts hops as a ring.
\<close>

fun hop_count :: "BasicTopology \<Rightarrow> int \<Rightarrow> int \<Rightarrow> int \<Rightarrow> int option" where
  "hop_count FullyConnected n src dest = FullyConnected_compute_hops_count n src dest"
| "hop_count Ring n src dest = Ring_compute_hops_count n src dest"
| "hop_count Switch n src dest = Switch_compute_hops_count n src dest"
| "hop_count Torus2D n src dest = Ring_compute_hops_count n src dest"

text \<open>
  Modelled from the spec: the delay formula of section 4.1, absent from the sources:
  \<open>fixed_latency = 2 * nic_latency + hops * (link_latency + router_latency)\<close>,
  \<open>serialization = message_size / link_bandwidth\<close>,
  \<open>total_delay = fixed_latency + serialization\<close>. The message size is in bytes.
\<close>

definition fixed_latency :: "TopologyConfig \<Rightarrow> int \<Rightarrow> rat" where
  "fixed_latency tc hops = 2 * nic_latency tc + of_int hops * (link_latency tc + router_latency tc)"

definition serialization :: "TopologyConfig \<Rightarrow> int \<Rightarrow> rat" where
  "serialization tc message_size = of_int message_size / link_bandwidth tc"

definition total_delay :: "TopologyConfig \<Rightarrow> int \<Rightarrow> int \<Rightarrow> rat" where
  "total_delay tc hops message_size = fixed_latency tc hops + serialization tc message_size"

text \<open>
  Modelled from the spec: the absent \<open>CompositeTopology\<close>, "one BasicTopology per
  addressing dimension" with that dimension's \<open>TopologyConfig\<close>.
\<close>

type_synonym CompositeTopology = "(BasicTopology \<times> TopologyConfig) list"

text \<open>
  Modelled from the spec: \<open>total_device_count\<close>, the product of the dimensions'
  \<open>npus_count\<close>.
\<close>

definition total_device_count :: "CompositeTopology \<Rightarrow> int" where
  "total_device_count dims = prod_list (map (\<lambda>(b, tc). npus_count tc) dims)"

text \<open>
  Modelled from the spec: \<open>coordinates(id)\<close>, the "mixed-radix decomposition using each
  dimension's \<open>npus_count\<close>", least significant dimension first.
\<close>

fun coordinates :: "CompositeTopology \<Rightarrow> int \<Rightarrow> int list" where
  "coordinates [] device = []"
| "coordinates ((b, tc) # dims) device =
     (device mod npus_count tc) # coordinates dims (device div npus_count tc)"

text \<open>
  Modelled from the spec: the sum of \<open>CompositeTopology.send\<close> over "exactly the
  dimensions in which the coordinates differ", each with its own hop count and config.
\<close>

fun differing_dimension_delays ::
  "CompositeTopology \<Rightarrow> int list \<Rightarrow> int list \<Rightarrow> int \<Rightarrow> rat option" where
  "differing_dimension_delays [] [] [] message_size = Some 0"
| "differing_dimension_delays ((b, tc) # dims) (s # ss) (d # ds) message_size =
     (if s = d then differing_dimension_delays dims ss ds message_size
      else
        (case hop_count b (npus_count tc) s d of
           None \<Rightarrow> None
         | Some hops \<Rightarrow>
             (case differing_dimension_delays dims ss ds message_size of
                None \<Rightarrow> None
              | Some rest \<Rightarrow> Some (total_delay tc hops message_size + rest))))"
| "differing_dimension_delays dims ss ds message_size = None"

text \<open>
  Modelled from the spec: \<open>CompositeTopology.send(src, dst, size)\<close> (absent). Device ids
  outside \<open>[0, total_device_count)\<close> are a programming error. For \<open>src = dst\<close> the delay
  "is the zero-hop case of the single relevant dimension's formula"; the first dimension is
  taken as that dimension.
\<close>

definition CompositeTopology_send :: "CompositeTopology \<Rightarrow> int \<Rightarrow> int \<Rightarrow> int \<Rightarrow> rat option" where
  "CompositeTopology_send dims src dst message_size =
     (if \<not> (valid_device (total_device_count dims) src \<and> valid_device (total_device_count dims) dst)
      then None
      else if src = dst then
        (case dims of [] \<Rightarrow> None | (b, tc) # rest \<Rightarrow> Some (total_delay tc 0 message_size))
      else differing_dimension_delays dims (coordinates dims src) (coordinates dims dst) message_size)"

text \<open>
  Modelled from the spec: the absent \<open>AnalyticalNetwork\<close> adapter of section 4.4, bound
  to one device id. \<open>send\<close> "must be called with \<open>src\<close> equal to this adapter's own device
  id (asserted)", computes the delay and schedules the completion callback.
\<close>

record NetworkAdapter =
  device_id :: int

definition NetworkAdapter_send ::
  "NetworkAdapter \<Rightarrow> CompositeTopology \<Rightarrow> int \<Rightarrow> int \<Rightarrow> int \<Rightarrow> 'cb \<Rightarrow> 'cb EventQueue
     \<Rightarrow> core_error + 'cb EventQueue" where
  "NetworkAdapter_send adapter topo src dst message_size completion_callback q =
     (if src \<noteq> device_id adapter then Inl InvariantViolation
      else
        (case CompositeTopology_send topo src dst message_size of
           None \<Rightarrow> Inl InvariantViolation
         | Some delay \<Rightarrow> schedule delay completion_callback q))"

section \<open>Concrete inputs\<close>

text \<open>A one-dimensional ring of four devices, fast version.\<close>

definition ring4_config :: config where
  "ring4_config =
     \<lparr> topology_name = ''Ring'', use_fast_version = True, dimensions_count = 1,
       units_counts = [4], link_latencies = [10], link_bandwidths = [1], nic_latencies = [2],
       router_latencies = [5], hbm_latencies = [500], hbm_bandwidths = [270],
       hbm_scales = [1] \<rparr>"

text \<open>The same document asking for the topology name \<open>AllToAll\<close>.\<close>

definition alltoall_config :: config where
  "alltoall_config = ring4_config\<lparr> topology_name := ''AllToAll'' \<rparr>"

text \<open>The same document with a name \<open>main\<close> does not know.\<close>

definition mesh_config :: config where
  "mesh_config = ring4_config\<lparr> topology_name := ''Mesh'' \<rparr>"

text \<open>The same document asking for the detailed (non-fast) version.\<close>

definition detailed_ring_config :: config where
  "detailed_ring_config = ring4_config\<lparr> use_fast_version := False \<rparr>"

text \<open>A ring document that declares two dimensions, with two entries in every array.\<close>

definition ring_two_dimensions_config :: config where
  "ring_two_dimensions_config =
     \<lparr> topology_name = ''Ring'', use_fast_version = True, dimensions_count = 2,
       units_counts = [4, 2], link_latencies = [10, 10], link_bandwidths = [1, 1],
       nic_latencies = [2, 2], router_latencies = [5, 5], hbm_latencies = [500, 500],
       hbm_bandwidths = [270, 270], hbm_scales = [1, 1] \<rparr>"

text \<open>
  A ring document that declares one dimension and carries two entries in every
  per-dimension array.
\<close>

definition surplus_config :: config where
  "surplus_config = ring_two_dimensions_config\<lparr> dimensions_count := 1 \<rparr>"

text \<open>The dimension of the worked scenario: the ring of \<open>ring4_config\<close>.\<close>

definition ring4_dimension :: TopologyConfig where
  "ring4_dimension =
     \<lparr> npus_count = 4, link_latency = 10, link_bandwidth = 1, nic_latency = 2,
       router_latency = 5, hbm_latency = 500, hbm_bandwidth = 270, hbm_scale = 1 \<rparr>"

text \<open>What \<open>main\<close> builds from \<open>ring4_config\<close>, and from \<open>surplus_config\<close>.\<close>

definition ring4_simulation :: simulation where
  "ring4_simulation =
     \<lparr> analytical_networks = [0, 1, 2, 3], memories = [0, 1, 2, 3],
       systems = [\<lparr> sys_id = 0, sys_dimensions = [1, 1, 4, 1, 0] \<rparr>,
                  \<lparr> sys_id = 1, sys_dimensions = [1, 1, 4, 1, 0] \<rparr>,
                  \<lparr> sys_id = 2, sys_dimensions = [1, 1, 4, 1, 0] \<rparr>,
                  \<lparr> sys_id = 3, sys_dimensions = [1, 1, 4, 1, 0] \<rparr>],
       topology = Some (FastRing [ring4_dimension]) \<rparr>"

definition surplus_simulation :: simulation where
  "surplus_simulation =
     \<lparr> analytical_networks = [0, 1, 2, 3, 4, 5, 6, 7],
       memories = [0, 1, 2, 3, 4, 5, 6, 7],
       systems = map (\<lambda>i. \<lparr> sys_id = i, sys_dimensions = [1, 1, 8, 1, 0] \<rparr>)
                   [0, 1, 2, 3, 4, 5, 6, 7],
       topology = Some (FastRing [ring4_dimension]) \<rparr>"

definition ring4_topology :: CompositeTopology where
  "ring4_topology = [(Ring, ring4_dimension)]"

text \<open>The three submissions of the ordering scenario, with the callbacks named by strings.\<close>

definition abc_calls :: "string call list" where
  "abc_calls = [Schedule 5 ''A'', Schedule 5 ''B'', Schedule 3 ''C'']"

text \<open>The queue those three submissions leave, before anything is dispatched.\<close>

definition abc_queue :: "string EventQueue" where
  "abc_queue =
     \<lparr> clock = 0, next_sequence_number = 3,
       entries = [\<lparr> time = 5, sequence_number = 0, callback = ''A'' \<rparr>,
                  \<lparr> time = 5, sequence_number = 1, callback = ''B'' \<rparr>,
                  \<lparr> time = 3, sequence_number = 2, callback = ''C'' \<rparr>] \<rparr>"

text \<open>
  The queue of the worked scenario once device 0 has sent 1000 bytes to device 2 at
  time 0, with the completion callback named \<open>done\<close>.
\<close>

definition sent_queue :: "string EventQueue" where
  "sent_queue =
     \<lparr> clock = 0, next_sequence_number = 1,
       entries = [\<lparr> time = 1034, sequence_number = 0, callback = ''done'' \<rparr>] \<rparr>"

text \<open>The dispatch record is in time order and ends no later than the clock.\<close>

definition trail_inv :: "'cb EventQueue \<Rightarrow> 'cb dispatch_log \<Rightarrow> bool" where
  "trail_inv q trail = (sorted (map snd trail) \<and> (\<forall>x \<in> set trail. snd x \<le> clock q))"

section \<open>Properties of the driver\<close>

lemma multiply_counts_prod:
  "multiply_counts acc us = Some r \<Longrightarrow> r = acc * prod_list us"
proof (induction us arbitrary: acc)
  case Nil
  then show ?case by simp
next
  case (Cons u us)
  from Cons.prems have "multiply_counts (acc * u) us = Some r"
    by (simp split: if_splits)
  then have "r = (acc * u) * prod_list us"
    by (rule Cons.IH)
  then show ?case by (simp add: mult.assoc)
qed

lemma make_topology_config_covered:
  assumes "arrays_cover_dimensions cfg" and "i < nat (dimensions_count cfg)"
  shows "make_topology_config cfg i = Some (dimension_entry cfg i)"
  using assms
  by (simp add: make_topology_config_def arrays_cover_dimensions_def covers_def vector_at_def
      dimension_entry_def)

lemma emplace_configs_covered:
  assumes "arrays_cover_dimensions cfg" and "\<forall>i \<in> set is. i < nat (dimensions_count cfg)"
  shows "emplace_configs cfg is acc = Some (acc @ map (dimension_entry cfg) is)"
  using assms(2)
proof (induction "is" arbitrary: acc)
  case Nil
  then show ?case by simp
next
  case (Cons i "is")
  then show ?case
    by (simp add: make_topology_config_covered [OF assms(1)])
qed

lemma build_topology_configs_covered:
  "arrays_cover_dimensions cfg \<Longrightarrow>
   build_topology_configs cfg = Some (map (dimension_entry cfg) [0..<nat (dimensions_count cfg)])"
  by (simp add: build_topology_configs_def emplace_configs_covered)

lemma nodes_count_for_system_init_cells:
  "nodes_count_for_system_init = [Some 1, Some 1, Some 1, Some 1, Some 0]"
  by (simp add: nodes_count_for_system_init_def value_initialized_array_def upt_rec numeral_eq_Suc)

text \<open>Once the statements before it are defined, the topology branch decides \<open>main\<close>.\<close>

lemma main_defined:
  assumes "defined_before_topology cfg"
  shows "\<exists>npus. compute_npus_count (units_counts cfg) = Some npus \<and> 0 < npus \<and>
     main cfg =
       after_topology npus (instantiate_topology cfg npus
               (map (dimension_entry cfg) [0..<nat (dimensions_count cfg)])
               nodes_count_for_system_init)"
  using assms
  by (auto simp: defined_before_topology_def device_count_defined_def main_def
      build_topology_configs_covered split: option.splits)

text \<open>The ways the topology branch can stop the program.\<close>

lemma instantiate_topology_stop:
  assumes "instantiate_topology cfg npus tcs nodes = Inl r"
  shows "(\<exists>m st. r = Exit m st) \<or> (\<exists>m. r = AssertionFailed m)
         \<or> (r = Undefined OutOfRange \<and> dimensions_count cfg = 2 \<and> length (units_counts cfg) < 2)"
  using assms
  by (auto simp: instantiate_topology_def vector_at_def split: if_splits option.splits)

text \<open>The topology branch writes only the elements 1 and 2 of \<open>nodes_count_for_system\<close>.\<close>

lemma instantiate_topology_nodes:
  assumes "instantiate_topology cfg npus tcs [Some 1, Some 1, Some 1, Some 1, Some 0]
             = Inr (topo, nodes)"
  shows "\<exists>a b. nodes = [Some 1, Some a, Some b, Some 1, Some 0]"
  using assms
  by (auto simp: instantiate_topology_def split: if_splits option.splits)

lemma ring4_defined: "defined_before_topology ring4_config"
  by (simp add: defined_before_topology_def device_count_defined_def compute_npus_count_def
      ring4_config_def INT_MIN_def INT_MAX_def arrays_cover_dimensions_def covers_def)

lemma two_dimensions_defined: "defined_before_topology ring_two_dimensions_config"
  by (simp add: defined_before_topology_def device_count_defined_def compute_npus_count_def
      ring_two_dimensions_config_def INT_MIN_def INT_MAX_def arrays_cover_dimensions_def covers_def)

lemma surplus_cover: "arrays_cover_dimensions surplus_config"
  by (simp add: surplus_config_def ring_two_dimensions_config_def arrays_cover_dimensions_def
      covers_def)

lemma mesh_defined: "defined_before_topology mesh_config"
  using ring4_defined
  by (simp add: defined_before_topology_def device_count_defined_def mesh_config_def
      arrays_cover_dimensions_def)

lemma detailed_ring_defined: "defined_before_topology detailed_ring_config"
  using ring4_defined
  by (simp add: defined_before_topology_def device_count_defined_def detailed_ring_config_def
      arrays_cover_dimensions_def)

lemma main_ring4: "main ring4_config = Constructed ring4_simulation"
  by (simp add: main_def ring4_config_def compute_npus_count_def INT_MIN_def INT_MAX_def
      build_topology_configs_def make_topology_config_def vector_at_def
      instantiate_topology_def nodes_count_for_system_init_cells after_topology_def
      instantiate_layers_def ring4_dimension_def ring4_simulation_def upt_rec numeral_eq_Suc)

lemma main_surplus: "main surplus_config = Constructed surplus_simulation"
  by (simp add: main_def surplus_config_def ring_two_dimensions_config_def compute_npus_count_def
      INT_MIN_def INT_MAX_def build_topology_configs_def make_topology_config_def vector_at_def
      instantiate_topology_def nodes_count_for_system_init_cells after_topology_def
      instantiate_layers_def ring4_dimension_def surplus_simulation_def upt_rec numeral_eq_Suc)

text \<open>
  C1. The claim: a configuration that asks for \<open>AllToAll\<close> is rejected with a configuration
  error before the simulation is built. The code does otherwise: on the one-dimensional
  document \<open>alltoall_config\<close> the branch of lines 238 to 251 only checks the dimension
  count, and \<open>main\<close> goes on to build four adapters, memories and systems and hands the
  adapters a null topology pointer.
\<close>

theorem alltoall_constructs_without_topology:
  "main alltoall_config =
     Constructed \<lparr> analytical_networks = [0, 1, 2, 3], memories = [0, 1, 2, 3],
       systems = [\<lparr> sys_id = 0, sys_dimensions = [1, 1, 1, 1, 0] \<rparr>,
                  \<lparr> sys_id = 1, sys_dimensions = [1, 1, 1, 1, 0] \<rparr>,
                  \<lparr> sys_id = 2, sys_dimensions = [1, 1, 1, 1, 0] \<rparr>,
                  \<lparr> sys_id = 3, sys_dimensions = [1, 1, 1, 1, 0] \<rparr>],
       topology = None \<rparr>"
  by (simp add: main_def alltoall_config_def ring4_config_def compute_npus_count_def
      INT_MIN_def INT_MAX_def build_topology_configs_def make_topology_config_def vector_at_def
      instantiate_topology_def nodes_count_for_system_init_cells after_topology_def
      instantiate_layers_def upt_rec numeral_eq_Suc)

text \<open>
  C4. For every configuration that names \<open>Switch\<close>, \<open>Torus2D\<close> or \<open>Ring\<close> and sets
  \<open>use-fast-version\<close> to false, the program halts before the simulation is built: with
  the message \<open>Detailed version not implemented yet\<close> and status \<open>-1\<close> when the dimension
  count is the one the topology expects, and with the failed dimension assertion
  otherwise. It never builds the fast topology instead. The configuration is one on which
  the statements before the topology branch are defined.
\<close>

theorem detailed_version_refused:
  assumes "defined_before_topology cfg" and "\<not> use_fast_version cfg"
    and "topology_name cfg = ''Switch'' \<or> topology_name cfg = ''Torus2D''
         \<or> topology_name cfg = ''Ring''"
  shows "main cfg =
           (if dimensions_count cfg = expected_dimensions (topology_name cfg)
            then Exit ''Detailed version not implemented yet'' (- 1)
            else AssertionFailed (dimension_assertion (topology_name cfg)))
         \<and> \<not> reaches_construction (main cfg)"
proof -
  from main_defined [OF assms(1)] obtain npus where
    m: "main cfg = after_topology npus (instantiate_topology cfg npus
               (map (dimension_entry cfg) [0..<nat (dimensions_count cfg)])
               nodes_count_for_system_init)"
    by blast
  have "main cfg =
           (if dimensions_count cfg = expected_dimensions (topology_name cfg)
            then Exit ''Detailed version not implemented yet'' (- 1)
            else AssertionFailed (dimension_assertion (topology_name cfg)))"
    unfolding m using assms(2,3)
    by (auto simp: instantiate_topology_def after_topology_def expected_dimensions_def
        dimension_assertion_def)
  then show ?thesis by (simp add: reaches_construction_def)
qed

text \<open>Witness for C4: the four-device ring document with \<open>use-fast-version\<close> false.\<close>

theorem detailed_version_refused_witness:
  "defined_before_topology detailed_ring_config \<and> \<not> use_fast_version detailed_ring_config
   \<and> topology_name detailed_ring_config = ''Ring''
   \<and> main detailed_ring_config = Exit ''Detailed version not implemented yet'' (- 1)
   \<and> \<not> reaches_construction (main detailed_ring_config)"
proof -
  have n: "topology_name detailed_ring_config = ''Ring''"
      "\<not> use_fast_version detailed_ring_config" "dimensions_count detailed_ring_config = 1"
    by (simp_all add: detailed_ring_config_def ring4_config_def)
  show ?thesis
    using detailed_version_refused [OF detailed_ring_defined n(2)] detailed_ring_defined n
    by (simp add: reaches_construction_def expected_dimensions_def)
qed

text \<open>
  C5. For every configuration whose topology name is none of \<open>Switch\<close>, \<open>AllToAll\<close>,
  \<open>Torus2D\<close> and \<open>Ring\<close>, the program prints \<open>[Main] Topology not defined: \<close> followed by
  the name and exits with status \<open>-1\<close>, which is not zero, before any adapter, memory or
  system exists. The configuration is one on which the statements before the topology
  branch are defined.
\<close>

theorem unknown_topology_rejected:
  assumes "defined_before_topology cfg"
    and "topology_name cfg \<noteq> ''Switch''" and "topology_name cfg \<noteq> ''AllToAll''"
    and "topology_name cfg \<noteq> ''Torus2D''" and "topology_name cfg \<noteq> ''Ring''"
  shows "main cfg = Exit (''[Main] Topology not defined: '' @ topology_name cfg) (- 1)
         \<and> \<not> reaches_construction (main cfg)"
proof -
  from main_defined [OF assms(1)] obtain npus where
    m: "main cfg = after_topology npus (instantiate_topology cfg npus
               (map (dimension_entry cfg) [0..<nat (dimensions_count cfg)])
               nodes_count_for_system_init)"
    by blast
  have "main cfg = Exit (''[Main] Topology not defined: '' @ topology_name cfg) (- 1)"
    unfolding m using assms(2-5) by (simp add: instantiate_topology_def after_topology_def)
  then show ?thesis by (simp add: reaches_construction_def)
qed

text \<open>Witness for C5: the ring document with the topology name \<open>Mesh\<close>.\<close>

theorem unknown_topology_rejected_witness:
  "defined_before_topology mesh_config \<and> topology_name mesh_config = ''Mesh''
   \<and> main mesh_config = Exit ''[Main] Topology not defined: Mesh'' (- 1)
   \<and> \<not> reaches_construction (main mesh_config)"
proof -
  have n: "topology_name mesh_config = ''Mesh''"
    by (simp add: mesh_config_def)
  show ?thesis
    using unknown_topology_rejected [OF mesh_defined] mesh_defined n
    by (simp add: reaches_construction_def)
qed

text \<open>
  C6, as stated: a configuration in which a per-dimension array has a length other than
  \<open>dimensions-count\<close> is detected as a fatal configuration error before the simulation
  is built. It fails on \<open>surplus_config\<close>, which declares one dimension and carries two
  entries in every array: \<open>main\<close> compares no lengths and builds the simulation.
\<close>

theorem surplus_lengths_not_detected:
  "length (units_counts surplus_config) \<noteq> nat (dimensions_count surplus_config)
   \<and> length (link_latencies surplus_config) \<noteq> nat (dimensions_count surplus_config)
   \<and> reaches_construction (main surplus_config)"
  by (simp add: main_surplus reaches_construction_def)
     (simp add: surplus_config_def ring_two_dimensions_config_def)

text \<open>
  C6, amended: for every configuration in which each of the eight per-dimension arrays
  has at least \<open>dimensions-count\<close> entries, the program makes no length check: the
  dimension list is built from the first \<open>dimensions-count\<close> entries of each array, any
  further entries are left unread by it, and no read goes past the end of an array.
\<close>

theorem dimension_list_from_leading_entries:
  assumes "arrays_cover_dimensions cfg"
  shows "build_topology_configs cfg =
           Some (map (dimension_entry cfg) [0..<nat (dimensions_count cfg)])
         \<and> main cfg \<noteq> Undefined OutOfRange"
proof -
  have b: "build_topology_configs cfg =
           Some (map (dimension_entry cfg) [0..<nat (dimensions_count cfg)])"
    using assms by (rule build_topology_configs_covered)
  have "main cfg \<noteq> Undefined OutOfRange"
  proof
    assume u: "main cfg = Undefined OutOfRange"
    then obtain npus where
      "after_topology npus (instantiate_topology cfg npus
          (map (dimension_entry cfg) [0..<nat (dimensions_count cfg)])
          nodes_count_for_system_init) = Undefined OutOfRange"
      by (auto simp: main_def b split: option.splits if_splits)
    then have "instantiate_topology cfg npus
          (map (dimension_entry cfg) [0..<nat (dimensions_count cfg)])
          nodes_count_for_system_init = Inl (Undefined OutOfRange)"
      by (auto simp: after_topology_def split: sum.splits option.splits)
    from instantiate_topology_stop [OF this]
    have "dimensions_count cfg = 2 \<and> length (units_counts cfg) < 2"
      by simp
    with assms show False
      by (simp add: arrays_cover_dimensions_def covers_def)
  qed
  with b show ?thesis by simp
qed

text \<open>Witness for C6: \<open>surplus_config\<close>, whose second entries are not used.\<close>

theorem dimension_list_from_leading_entries_witness:
  "arrays_cover_dimensions surplus_config
   \<and> build_topology_configs surplus_config = Some [ring4_dimension]
   \<and> main surplus_config \<noteq> Undefined OutOfRange"
proof -
  have e: "map (dimension_entry surplus_config) [0..<nat (dimensions_count surplus_config)]
           = [ring4_dimension]"
    by (simp add: dimension_entry_def ring4_dimension_def surplus_config_def
        ring_two_dimensions_config_def)
  show ?thesis
    using dimension_list_from_leading_entries [OF surplus_cover] surplus_cover e by simp
qed

text \<open>
  C7. For every configuration whose dimension count differs from the one its topology
  name expects (1 for \<open>Switch\<close>, \<open>Ring\<close> and \<open>AllToAll\<close>, 2 for \<open>Torus2D\<close>), the program
  stops on the assertion of that branch, whose text names the topology and the expected
  count, before the simulation is built. Assertions are compiled in, and the configuration
  is one on which the statements before the topology branch are defined.
\<close>

theorem dimension_mismatch_asserted:
  assumes "defined_before_topology cfg"
    and "topology_name cfg = ''Switch'' \<or> topology_name cfg = ''Ring''
         \<or> topology_name cfg = ''AllToAll'' \<or> topology_name cfg = ''Torus2D''"
    and "dimensions_count cfg \<noteq> expected_dimensions (topology_name cfg)"
  shows "main cfg = AssertionFailed (dimension_assertion (topology_name cfg))
         \<and> \<not> reaches_construction (main cfg)"
proof -
  from main_defined [OF assms(1)] obtain npus where
    m: "main cfg = after_topology npus (instantiate_topology cfg npus
               (map (dimension_entry cfg) [0..<nat (dimensions_count cfg)])
               nodes_count_for_system_init)"
    by blast
  have "main cfg = AssertionFailed (dimension_assertion (topology_name cfg))"
    unfolding m using assms(2,3)
    by (auto simp: instantiate_topology_def after_topology_def expected_dimensions_def
        dimension_assertion_def)
  then show ?thesis by (simp add: reaches_construction_def)
qed

text \<open>Witness for C7: a ring document that declares two dimensions.\<close>

theorem dimension_mismatch_asserted_witness:
  "defined_before_topology ring_two_dimensions_config
   \<and> topology_name ring_two_dimensions_config = ''Ring''
   \<and> dimensions_count ring_two_dimensions_config \<noteq>
       expected_dimensions (topology_name ring_two_dimensions_config)
   \<and> main ring_two_dimensions_config =
       AssertionFailed ''[main] Ring is the given topology but dimension != 1''
   \<and> \<not> reaches_construction (main ring_two_dimensions_config)"
proof -
  have n: "topology_name ring_two_dimensions_config = ''Ring''"
      "dimensions_count ring_two_dimensions_config = 2"
    by (simp_all add: ring_two_dimensions_config_def)
  show ?thesis
    using dimension_mismatch_asserted [OF two_dimensions_defined] two_dimensions_defined n
    by (simp add: reaches_construction_def expected_dimensions_def dimension_assertion_def)
qed

text \<open>
  C8, as stated: the number of adapters, memories and systems is the product of
  \<open>units-count\<close> over the \<open>dimensions-count\<close> dimensions. It fails on \<open>surplus_config\<close>:
  one dimension of four units is declared, and eight devices are built, because the loop
  of lines 188 to 190 multiplies every entry of \<open>units-count\<close>.
\<close>

theorem device_count_surplus:
  "device_count (main surplus_config) = Some 8
   \<and> prod_list (take (nat (dimensions_count surplus_config)) (units_counts surplus_config)) = 4"
  by (simp add: main_surplus device_count_def simulation_of_def surplus_simulation_def)
     (simp add: surplus_config_def ring_two_dimensions_config_def)

text \<open>
  C8, amended: for every configuration on which \<open>main\<close> builds the simulation, the number
  of adapters, of memories and of systems is the product of all entries of the
  \<open>units-count\<close> array; when that array has exactly \<open>dimensions-count\<close> entries, this is
  the product over the \<open>dimensions-count\<close> dimensions.
\<close>

theorem device_count_is_product:
  assumes "main cfg = Constructed sim"
  shows "int (length (analytical_networks sim)) = prod_list (units_counts cfg)
       \<and> int (length (memories sim)) = prod_list (units_counts cfg)
       \<and> int (length (systems sim)) = prod_list (units_counts cfg)
       \<and> (length (units_counts cfg) = nat (dimensions_count cfg) \<longrightarrow>
            prod_list (units_counts cfg) =
              prod_list (take (nat (dimensions_count cfg)) (units_counts cfg)))"
proof -
  from assms obtain npus dims topo where
    n: "compute_npus_count (units_counts cfg) = Some npus" and pos: "0 < npus"
    and sim: "sim = instantiate_layers npus dims topo"
    by (auto simp: main_def after_topology_def split: option.splits if_splits sum.splits
        dest: instantiate_topology_stop)
  from n have "npus = prod_list (units_counts cfg)"
    using multiply_counts_prod [of 1 "units_counts cfg" npus]
    by (simp add: compute_npus_count_def)
  with pos sim show ?thesis
    by (simp add: instantiate_layers_def)
qed

text \<open>Witness for C8: the four-device ring, whose \<open>units-count\<close> has one entry.\<close>

theorem device_count_is_product_witness:
  "main ring4_config = Constructed ring4_simulation
   \<and> length (units_counts ring4_config) = nat (dimensions_count ring4_config)
   \<and> int (length (systems ring4_simulation)) = 4
   \<and> prod_list (units_counts ring4_config) = 4
   \<and> prod_list (take (nat (dimensions_count ring4_config)) (units_counts ring4_config)) = 4"
  using device_count_is_product [OF main_ring4] main_ring4
  by (simp add: ring4_config_def)

text \<open>
  C10, as stated: the fifth element of \<open>nodes_count_for_system\<close> is indeterminate when
  it is handed to \<open>AstraSim::Sys\<close>. It is not: \<open>std::array<int, 5>()\<close> value-initialises
  the array, so the element the loop of lines 194 to 196 leaves alone holds 0, and the
  four systems of the ring document each receive the dimensions 1, 1, 4, 1, 0.
\<close>

theorem fifth_dimension_value_initialized:
  "nodes_count_for_system_init ! 4 = Some 0
   \<and> handed_dimensions (main ring4_config) =
       [[1, 1, 4, 1, 0], [1, 1, 4, 1, 0], [1, 1, 4, 1, 0], [1, 1, 4, 1, 0]]"
  by (simp add: nodes_count_for_system_init_cells main_ring4 handed_dimensions_def
      simulation_of_def ring4_simulation_def)

text \<open>
  C10, amended: the loop writes only the first four elements of
  \<open>nodes_count_for_system\<close>; the fifth keeps the value 0 of the value-initialisation. No
  run reads an indeterminate element, and on every run that builds the simulation each
  \<open>AstraSim::Sys\<close> is handed five dimension values of which the fifth is 0.
\<close>

theorem fifth_dimension_is_zero:
  "nodes_count_for_system_init = [Some 1, Some 1, Some 1, Some 1, Some 0]
   \<and> main cfg \<noteq> Undefined IndeterminateRead
   \<and> (main cfg = Constructed sim \<longrightarrow>
        (\<forall>s \<in> set (systems sim). length (sys_dimensions s) = 5 \<and> sys_dimensions s ! 4 = 0))"
proof -
  have a: "(\<exists>stop. r = stop \<and> instantiate_topology cfg npus tcs nodes_count_for_system_init = Inl stop)
           \<or> (\<exists>a b topo. r = Constructed (instantiate_layers npus [1, a, b, 1, 0] topo))"
    if "after_topology npus (instantiate_topology cfg npus tcs nodes_count_for_system_init) = r"
    for r npus tcs
  proof (cases "instantiate_topology cfg npus tcs nodes_count_for_system_init")
    case (Inl stop)
    with that show ?thesis by (simp add: after_topology_def)
  next
    case (Inr p)
    obtain topo nodes where p: "p = (topo, nodes)" by (cases p)
    from Inr p instantiate_topology_nodes [of cfg npus tcs topo nodes]
    obtain a b where "nodes = [Some 1, Some a, Some b, Some 1, Some 0]"
      by (auto simp: nodes_count_for_system_init_cells)
    with that Inr p show ?thesis by (auto simp: after_topology_def)
  qed
  have b: "main cfg \<noteq> Undefined IndeterminateRead"
  proof
    assume u: "main cfg = Undefined IndeterminateRead"
    then obtain npus tcs where
      "after_topology npus (instantiate_topology cfg npus tcs nodes_count_for_system_init)
         = Undefined IndeterminateRead"
      by (auto simp: main_def split: option.splits if_splits)
    from a [OF this] show False
      by (auto dest: instantiate_topology_stop)
  qed
  have c: "\<forall>s \<in> set (systems sim). length (sys_dimensions s) = 5 \<and> sys_dimensions s ! 4 = 0"
    if "main cfg = Constructed sim"
  proof -
    from that obtain npus tcs where
      "after_topology npus (instantiate_topology cfg npus tcs nodes_count_for_system_init)
         = Constructed sim"
      by (auto simp: main_def split: option.splits if_splits)
    from a [OF this] obtain a b topo where "sim = instantiate_layers npus [1, a, b, 1, 0] topo"
      by (auto dest: instantiate_topology_stop)
    then show ?thesis by (auto simp: instantiate_layers_def)
  qed
  from b c show ?thesis
    by (simp add: nodes_count_for_system_init_cells)
qed

text \<open>Witness for C10: the four systems of the ring document.\<close>

theorem fifth_dimension_is_zero_witness:
  "main ring4_config = Constructed ring4_simulation
   \<and> main ring4_config \<noteq> Undefined IndeterminateRead
   \<and> map (\<lambda>s. (length (sys_dimensions s), sys_dimensions s ! 4)) (systems ring4_simulation)
       = [(5, 0), (5, 0), (5, 0), (5, 0)]"
  using fifth_dimension_is_zero [of ring4_config ring4_simulation] main_ring4
  by (simp add: ring4_simulation_def)

section \<open>Properties of the event queue\<close>

lemma not_precedes_chain: "\<not> precedes e m \<Longrightarrow> \<not> precedes m r \<Longrightarrow> \<not> precedes e r"
  by (auto simp: precedes_def)

lemma precedes_total:
  "sequence_number a \<noteq> sequence_number b \<Longrightarrow> \<not> precedes a b \<Longrightarrow> precedes b a"
  by (auto simp: precedes_def)

lemma earliest_in: "earliest m es \<in> set (m # es)"
  by (induction es arbitrary: m) auto

lemma earliest_not_preceded: "x \<in> set (m # es) \<Longrightarrow> \<not> precedes x (earliest m es)"
proof (induction es arbitrary: m x)
  case Nil
  then show ?case by (simp add: precedes_def)
next
  case (Cons e es)
  let ?m' = "if precedes e m then e else m"
  have keep: "\<not> precedes y (earliest ?m' es)" if "y \<in> set (?m' # es)" for y
    using that by (rule Cons.IH)
  have best: "\<not> precedes ?m' (earliest ?m' es)"
    by (rule keep) simp
  consider "x = m" | "x = e" | "x \<in> set es"
    using Cons.prems by auto
  then show ?case
  proof cases
    case 1
    show ?thesis
    proof (cases "precedes e m")
      case True
      with best have "\<not> precedes e (earliest e es)" by simp
      with True have "\<not> precedes m (earliest e es)"
        by (auto simp: precedes_def)
      with True 1 show ?thesis by simp
    next
      case False
      with best 1 show ?thesis by simp
    qed
  next
    case 2
    show ?thesis
    proof (cases "precedes e m")
      case True
      with best 2 show ?thesis by simp
    next
      case False
      with best have "\<not> precedes m (earliest m es)" by simp
      with False have "\<not> precedes e (earliest m es)"
        by (rule not_precedes_chain)
      with False 2 show ?thesis by simp
    qed
  next
    case 3
    then have "\<not> precedes x (earliest ?m' es)"
      by (intro keep) simp
    then show ?thesis by simp
  qed
qed

lemma queue_inv_new: "queue_inv EventQueue_new"
  by (simp add: queue_inv_def EventQueue_new_def)

lemma queue_inv_schedule:
  assumes "queue_inv q" and "schedule delay cb q = Inr q'"
  shows "queue_inv q' \<and> clock q' = clock q"
proof -
  from assms(2) have d: "0 \<le> delay"
    and q': "q' = q\<lparr> next_sequence_number := Suc (next_sequence_number q),
                     entries := entries q @
                       [\<lparr> time = clock q + delay, sequence_number = next_sequence_number q,
                          callback = cb \<rparr>] \<rparr>"
    by (auto simp: schedule_def split: if_splits)
  from assms(1) have old: "\<forall>e \<in> set (entries q).
      clock q \<le> time e \<and> sequence_number e < next_sequence_number q"
    and dist: "distinct (map sequence_number (entries q))"
    by (simp_all add: queue_inv_def)
  from old have fresh: "next_sequence_number q \<notin> sequence_number ` set (entries q)"
    by auto
  from old have "\<forall>e \<in> set (entries q).
      clock q \<le> time e \<and> sequence_number e < Suc (next_sequence_number q)"
    by (auto intro: less_SucI)
  with d dist fresh show ?thesis
    unfolding q' by (simp add: queue_inv_def)
qed

lemma proceed_dispatch:
  assumes "queue_inv q" and "proceed q = (Some m, q')"
  shows "m \<in> set (entries q)"
    and "\<forall>e \<in> set (entries q). e \<noteq> m \<longrightarrow> precedes m e"
    and "entries q' = remove1 m (entries q)"
    and "clock q' = time m"
    and "clock q \<le> clock q'"
    and "queue_inv q'"
proof -
  from assms(2) obtain e es where es: "entries q = e # es" and m: "m = earliest e es"
    and q': "q' = q\<lparr> clock := time m, entries := remove1 m (entries q) \<rparr>"
    by (auto simp: proceed_def Let_def split: list.splits)
  show in_q: "m \<in> set (entries q)"
    using earliest_in [of e es] es m by simp
  have least: "\<not> precedes x m" if "x \<in> set (entries q)" for x
    using earliest_not_preceded [of x e es] that es m by simp
  have inj: "inj_on sequence_number (set (entries q))" and dist: "distinct (entries q)"
    using assms(1) by (simp_all add: queue_inv_def distinct_map)
  show first: "\<forall>x \<in> set (entries q). x \<noteq> m \<longrightarrow> precedes m x"
  proof (intro ballI impI)
    fix x assume x: "x \<in> set (entries q)" "x \<noteq> m"
    with inj in_q have "sequence_number x \<noteq> sequence_number m"
      by (auto dest: inj_onD)
    with least [OF x(1)] show "precedes m x"
      by (auto intro: precedes_total)
  qed
  show "entries q' = remove1 m (entries q)" and t: "clock q' = time m"
    using q' by simp_all
  show "clock q \<le> clock q'"
    using assms(1) in_q t by (simp add: queue_inv_def)
  have "clock q' \<le> time x \<and> sequence_number x < next_sequence_number q'"
    if "x \<in> set (entries q')" for x
  proof -
    from that q' have xq: "x \<in> set (entries q)"
      using set_remove1_subset [of m "entries q"] by auto
    from least [OF xq] have "time m \<le> time x"
      by (auto simp: precedes_def)
    with assms(1) xq q' show ?thesis
      by (simp add: queue_inv_def)
  qed
  moreover have "distinct (map sequence_number (entries q'))"
  proof -
    have "distinct (remove1 m (entries q))"
      using dist by simp
    moreover have "inj_on sequence_number (set (remove1 m (entries q)))"
      using inj by (rule inj_on_subset) (rule set_remove1_subset)
    ultimately show ?thesis
      using q' by (simp add: distinct_map)
  qed
  ultimately show "queue_inv q'"
    by (simp add: queue_inv_def)
qed

text \<open>A \<open>proceed\<close> on a non-empty queue dispatches and leaves one entry fewer.\<close>

lemma proceed_nonempty:
  assumes "\<not> empty_queue q"
  shows "\<exists>m q'. proceed q = (Some m, q') \<and> length (entries q') < length (entries q)"
proof -
  from assms obtain e es where es: "entries q = e # es"
    by (cases "entries q") (auto simp: empty_queue_def)
  have "earliest e es \<in> set (entries q)"
    using earliest_in [of e es] es by simp
  then have l: "length (remove1 (earliest e es) (entries q)) < length (entries q)"
    by (simp add: length_remove1) (cases "entries q"; simp)
  have "proceed q = (Some (earliest e es),
          q\<lparr> clock := time (earliest e es), entries := remove1 (earliest e es) (entries q) \<rparr>)"
    unfolding proceed_def Let_def es by simp
  with l show ?thesis
    by simp
qed

text \<open>The loop of \<open>main\<close> ends, and ends with an empty queue.\<close>

lemma proceed_rounds_empties:
  "length (entries q) \<le> n \<Longrightarrow> empty_queue (fst (proceed_rounds n (q, trail)))"
proof (induction n arbitrary: q trail)
  case 0
  then show ?case by (simp add: empty_queue_def)
next
  case (Suc n)
  show ?case
  proof (cases "empty_queue q")
    case True
    then show ?thesis by simp
  next
    case False
    from proceed_nonempty [OF False] obtain m q' where
      p: "proceed q = (Some m, q')" and l: "length (entries q') < length (entries q)"
      by blast
    from l Suc.prems have "length (entries q') \<le> n" by simp
    then have "empty_queue (fst (proceed_rounds n (q', trail @ [(callback m, clock q')])))"
      by (rule Suc.IH)
    with False p show ?thesis by simp
  qed
qed

lemma run_events_empties: "empty_queue (fst (run_events q))"
  by (simp add: run_events_def proceed_rounds_empties)

lemma run_inv:
  assumes "run calls (q, trail) = Inr (q', trail')" and "queue_inv q" and "trail_inv q trail"
  shows "queue_inv q' \<and> trail_inv q' trail'"
  using assms
proof (induction calls arbitrary: q trail)
  case Nil
  then show ?case by simp
next
  case (Cons c cs)
  show ?case
  proof (cases c)
    case (Schedule delay cb)
    with Cons.prems(1) obtain q1 where s: "schedule delay cb q = Inr q1"
      and r: "run cs (q1, trail) = Inr (q', trail')"
      by (auto split: sum.splits)
    from queue_inv_schedule [OF Cons.prems(2) s] Cons.prems(3)
    have "queue_inv q1" and "trail_inv q1 trail"
      by (simp_all add: trail_inv_def)
    with r show ?thesis by (rule Cons.IH)
  next
    case Proceed
    obtain r q1 where p: "proceed q = (r, q1)"
      by (cases "proceed q")
    show ?thesis
    proof (cases r)
      case None
      with p have "q1 = q"
        by (auto simp: proceed_def Let_def split: list.splits)
      with p None Proceed Cons.prems(1) have "run cs (q, trail) = Inr (q', trail')"
        by simp
      then show ?thesis using Cons.prems(2,3) by (rule Cons.IH)
    next
      case (Some m)
      with p Proceed Cons.prems(1)
      have r: "run cs (q1, trail @ [(callback m, clock q1)]) = Inr (q', trail')"
        by simp
      from p Some have pm: "proceed q = (Some m, q1)" by simp
      note d = proceed_dispatch [OF Cons.prems(2) pm]
      have "trail_inv q1 (trail @ [(callback m, clock q1)])"
        using Cons.prems(3) d(5)
        by (auto simp: trail_inv_def sorted_append)
      with r d(6) show ?thesis by (rule Cons.IH)
    qed
  qed
qed

lemma run_abc: "run abc_calls (EventQueue_new, []) = Inr (abc_queue, [])"
  by (simp add: abc_calls_def abc_queue_def EventQueue_new_def schedule_def)

text \<open>
  C2. After any sequence of calls on a fresh queue (schedules, and \<open>proceed\<close> calls
  between them), a \<open>proceed\<close> on a non-empty queue dispatches, and the entry it
  dispatches is a pending entry that precedes every other pending entry in
  \<open>(time, sequence_number)\<close> order, so among equal times the one inserted first; it
  removes that entry and sets the clock to its time, which is not below the clock before
  the call, and the clocks recorded after successive \<open>proceed\<close> calls never decrease.
  The loop of \<open>main\<close> ends with the queue empty. Scheduling A at 5, B at 5 and C at 3
  and running that loop dispatches C at clock 3, A at clock 5, B at clock 5.
\<close>

theorem proceed_dispatches_earliest:
  assumes "run calls (EventQueue_new, []) = Inr (q, trail)"
  shows "sorted (map snd trail)
    \<and> (\<not> empty_queue q \<longrightarrow> fst (proceed q) \<noteq> None)
    \<and> (proceed q = (Some m, q') \<longrightarrow>
         m \<in> set (entries q) \<and> (\<forall>e \<in> set (entries q). e \<noteq> m \<longrightarrow> precedes m e)
         \<and> entries q' = remove1 m (entries q) \<and> clock q' = time m \<and> clock q \<le> clock q')
    \<and> empty_queue (fst (run_events q))
    \<and> run abc_calls (EventQueue_new, []) = Inr (abc_queue, [])
    \<and> run_events abc_queue =
         (\<lparr> clock = 5, next_sequence_number = 3, entries = [] \<rparr>,
          [(''C'', 3), (''A'', 5), (''B'', 5)])"
proof -
  have "trail_inv (EventQueue_new :: 'a EventQueue) []"
    by (simp add: trail_inv_def)
  from run_inv [OF assms queue_inv_new this]
  have inv: "queue_inv q" and tr: "trail_inv q trail"
    by simp_all
  have a: "sorted (map snd trail)"
    using tr by (simp add: trail_inv_def)
  have b: "m \<in> set (entries q) \<and> (\<forall>e \<in> set (entries q). e \<noteq> m \<longrightarrow> precedes m e)
         \<and> entries q' = remove1 m (entries q) \<and> clock q' = time m \<and> clock q \<le> clock q'"
    if "proceed q = (Some m, q')"
    using proceed_dispatch [OF inv that] by simp
  have c: "run_events abc_queue =
         (\<lparr> clock = 5, next_sequence_number = 3, entries = [] \<rparr>,
          [(''C'', 3), (''A'', 5), (''B'', 5)])"
    by (simp add: run_events_def abc_queue_def proceed_def precedes_def empty_queue_def
        numeral_eq_Suc)
  have d: "\<not> empty_queue q \<longrightarrow> fst (proceed q) \<noteq> None"
    using proceed_nonempty [of q] by auto
  from a b c d run_abc run_events_empties [of q] show ?thesis by blast
qed

text \<open>Witness for C2: the first \<open>proceed\<close> after the three submissions.\<close>

theorem proceed_dispatches_earliest_witness:
  "run abc_calls (EventQueue_new, []) = Inr (abc_queue, [])
   \<and> proceed abc_queue =
       (Some \<lparr> time = 3, sequence_number = 2, callback = ''C'' \<rparr>,
        \<lparr> clock = 3, next_sequence_number = 3,
          entries = [\<lparr> time = 5, sequence_number = 0, callback = ''A'' \<rparr>,
                     \<lparr> time = 5, sequence_number = 1, callback = ''B'' \<rparr>] \<rparr>)
   \<and> precedes \<lparr> time = 3, sequence_number = 2, callback = ''C'' \<rparr>
        \<lparr> time = 5, sequence_number = 0, callback = ''A'' \<rparr>
   \<and> precedes \<lparr> time = 3, sequence_number = 2, callback = ''C'' \<rparr>
        \<lparr> time = 5, sequence_number = 1, callback = ''B'' \<rparr>
   \<and> clock abc_queue \<le> 3
   \<and> \<not> empty_queue abc_queue"
proof -
  have p: "proceed abc_queue =
       (Some \<lparr> time = 3, sequence_number = 2, callback = ''C'' \<rparr>,
        \<lparr> clock = 3, next_sequence_number = 3,
          entries = [\<lparr> time = 5, sequence_number = 0, callback = ''A'' \<rparr>,
                     \<lparr> time = 5, sequence_number = 1, callback = ''B'' \<rparr>] \<rparr>)"
    by (simp add: abc_queue_def proceed_def precedes_def)
  have e: "entries abc_queue =
             [\<lparr> time = 5, sequence_number = 0, callback = ''A'' \<rparr>,
              \<lparr> time = 5, sequence_number = 1, callback = ''B'' \<rparr>,
              \<lparr> time = 3, sequence_number = 2, callback = ''C'' \<rparr>]"
    by (simp add: abc_queue_def)
  show ?thesis
    using proceed_dispatches_earliest [OF run_abc,
        of "\<lparr> time = 3, sequence_number = 2, callback = ''C'' \<rparr>"
           "\<lparr> clock = 3, next_sequence_number = 3,
              entries = [\<lparr> time = 5, sequence_number = 0, callback = ''A'' \<rparr>,
                         \<lparr> time = 5, sequence_number = 1, callback = ''B'' \<rparr>] \<rparr>"]
      p e run_abc
    by (simp add: empty_queue_def)
qed

section \<open>Properties of the topologies\<close>

text \<open>
  C9. For every fully connected dimension of size \<open>n\<close> and all indices \<open>i\<close>, \<open>j\<close> in
  \<open>[0, n)\<close>, \<open>compute_hops_count\<close> gives 0 when \<open>i = j\<close> and 1 otherwise, and gives the same
  for \<open>(i, j)\<close> and \<open>(j, i)\<close>.
\<close>

theorem fully_connected_hops:
  assumes "valid_device n i" and "valid_device n j"
  shows "FullyConnected_compute_hops_count n i j = Some (if i = j then 0 else 1)
       \<and> FullyConnected_compute_hops_count n i j = FullyConnected_compute_hops_count n j i
       \<and> hop_count FullyConnected n i j = FullyConnected_compute_hops_count n i j"
  using assms by (simp add: FullyConnected_compute_hops_count_def)

text \<open>Witness for C9: devices 0 and 3 of four.\<close>

theorem fully_connected_hops_witness:
  "valid_device 4 0 \<and> valid_device 4 3
   \<and> FullyConnected_compute_hops_count 4 0 3 = Some 1
   \<and> FullyConnected_compute_hops_count 4 3 0 = Some 1
   \<and> FullyConnected_compute_hops_count 4 3 3 = Some 0"
proof -
  have v: "valid_device 4 0" "valid_device 4 3"
    by (simp_all add: valid_device_def)
  show ?thesis
    using fully_connected_hops [OF v(1) v(2)] fully_connected_hops [OF v(2) v(2)] v
    by auto
qed

text \<open>
  C3. On a one-dimensional ring of four devices with link latency 10, router latency 5,
  NIC latency 2 and link bandwidth 1, a send of 1000 bytes from device 0 to device 2
  issued at time 0 has hop count 2, fixed latency 34, serialization 1000 and total delay
  1034; the adapter enqueues one entry, and the loop of \<open>main\<close> fires the completion
  callback once, at time 1034.
\<close>

theorem ring4_worked_scenario:
  "hop_count Ring 4 0 2 = Some 2
   \<and> fixed_latency ring4_dimension 2 = 34
   \<and> serialization ring4_dimension 1000 = 1000
   \<and> total_delay ring4_dimension 2 1000 = 1034
   \<and> CompositeTopology_send ring4_topology 0 2 1000 = Some 1034
   \<and> NetworkAdapter_send \<lparr> device_id = 0 \<rparr> ring4_topology 0 2 1000 ''done'' EventQueue_new
       = Inr sent_queue
   \<and> run_events sent_queue =
       (\<lparr> clock = 1034, next_sequence_number = 1, entries = [] \<rparr>, [(''done'', 1034)])"
proof -
  have h': "Ring_compute_hops_count 4 0 2 = Some 2"
    by (simp add: Ring_compute_hops_count_def valid_device_def)
  then have h: "hop_count Ring 4 0 2 = Some 2"
    by simp
  have f: "fixed_latency ring4_dimension 2 = 34"
    by (simp add: fixed_latency_def ring4_dimension_def)
  have s: "serialization ring4_dimension 1000 = 1000"
    by (simp add: serialization_def ring4_dimension_def)
  have t: "total_delay ring4_dimension 2 1000 = 1034"
    by (simp add: total_delay_def f s)
  have n: "npus_count ring4_dimension = 4"
    by (simp add: ring4_dimension_def)
  have c: "CompositeTopology_send ring4_topology 0 2 1000 = Some 1034"
    by (simp add: CompositeTopology_send_def ring4_topology_def total_device_count_def
        valid_device_def n h' t)
  have a: "NetworkAdapter_send \<lparr> device_id = 0 \<rparr> ring4_topology 0 2 1000 ''done'' EventQueue_new
       = Inr sent_queue"
    by (simp add: NetworkAdapter_send_def c schedule_def EventQueue_new_def sent_queue_def)
  have r: "run_events sent_queue =
       (\<lparr> clock = 1034, next_sequence_number = 1, entries = [] \<rparr>, [(''done'', 1034)])"
    by (simp add: run_events_def sent_queue_def proceed_def empty_queue_def)
  from h f s t c a r show ?thesis by simp
qed

end
